theory Spec2Isabelle
  imports Complex_Main
begin

section \<open>Errors\<close>

text \<open>
  Every \<^verbatim>\<open>raise ValueError(...)\<close> of the source is a value \<open>ValueError msg\<close>.
  A pydantic model constructor reports a violated \<^verbatim>\<open>Field\<close> constraint
  (\<^verbatim>\<open>ge\<close>, \<^verbatim>\<open>le\<close>, \<^verbatim>\<open>min_length\<close>, \<^verbatim>\<open>max_length\<close>, \<^verbatim>\<open>max_items\<close>) as a
  \<open>ValidationError\<close> naming the field, and wraps a \<^verbatim>\<open>ValueError\<close> raised by a
  field validator the same way.
\<close>

datatype error = ValueError string | ValidationError string

fun wrap_validation :: "string \<Rightarrow> error + 'a \<Rightarrow> error + 'a" where
  "wrap_validation field (Inl e) = Inl (ValidationError field)"
| "wrap_validation field (Inr x) = Inr x"

section \<open>ConfidenceScore (src/domain/value\_objects/confidence\_score.py)\<close>

text \<open>
  Python floats are modelled as real numbers. \<^verbatim>\<open>round(v, n)\<close> rounds to \<open>n\<close> decimals,
  a tie going to the even neighbour.
\<close>

definition round_half_even :: "real \<Rightarrow> int" where
  "round_half_even x =
     (let f = \<lfloor>x\<rfloor>; d = x - of_int f
      in if d < 1/2 then f else if d > 1/2 then f + 1
         else if even f then f else f + 1)"

definition py_round :: "real \<Rightarrow> nat \<Rightarrow> real" where
  "py_round v n = of_int (round_half_even (v * 10 ^ n)) / 10 ^ n"

record ConfidenceScore =
  cs_value :: real

definition validate_range :: "real \<Rightarrow> error + real" where
  "validate_range v =
     (if \<not> (0 \<le> v \<and> v \<le> 1)
      then Inl (ValueError ''Confidence score must be between 0.0 and 1.0'')
      else Inr (py_round v 4))"

text \<open>
  \<^verbatim>\<open>ConfidenceScore(value=v)\<close>: the field constraints \<^verbatim>\<open>ge=0.0, le=1.0\<close>, then the
  validator \<^verbatim>\<open>validate_range\<close>.
\<close>

definition ConfidenceScore_of :: "real \<Rightarrow> error + ConfidenceScore" where
  "ConfidenceScore_of v =
     (if v < 0 \<or> 1 < v then Inl (ValidationError ''value'')
      else case wrap_validation ''value'' (validate_range v) of
             Inl e \<Rightarrow> Inl e
           | Inr r \<Rightarrow> Inr \<lparr>cs_value = r\<rparr>)"

definition get_confidence_level :: "ConfidenceScore \<Rightarrow> string" where
  "get_confidence_level c =
     (if cs_value c \<ge> 0.8 then ''HIGH''
      else if cs_value c \<ge> 0.6 then ''MEDIUM''
      else if cs_value c \<ge> 0.2 then ''LOW''
      else ''VERY_LOW'')"

definition cs_is_high_confidence :: "ConfidenceScore \<Rightarrow> real \<Rightarrow> bool" where
  "cs_is_high_confidence c threshold = (cs_value c \<ge> threshold)"

section \<open>ClassificationType (src/domain/entities/classification.py)\<close>

datatype ClassificationType = RELIABLE | INCONCLUSIVE | UNFOUNDED | FAKE

definition from_confidence :: "ConfidenceScore \<Rightarrow> ClassificationType" where
  "from_confidence confidence =
     (if cs_value confidence \<ge> 0.8 then RELIABLE
      else if cs_value confidence \<ge> 0.4 then INCONCLUSIVE
      else if cs_value confidence \<ge> 0.2 then UNFOUNDED
      else FAKE)"

text \<open>Classifying a raw value: construct the score, then map it to its type.\<close>

definition classify_value :: "real \<Rightarrow> error + ClassificationType" where
  "classify_value v =
     (case ConfidenceScore_of v of Inl e \<Rightarrow> Inl e | Inr c \<Rightarrow> Inr (from_confidence c))"

section \<open>Python strings\<close>

text \<open>
  A Python \<^verbatim>\<open>str\<close> is modelled as an Isabelle \<open>string\<close>, one \<open>char\<close> per code point;
  Isabelle characters are the code points U+0000 to U+00FF. On that range the tables of
  the Unicode database that the source consults are the ones below: \<^verbatim>\<open>str.isspace\<close>
  (used by \<^verbatim>\<open>strip\<close>, \<^verbatim>\<open>split\<close> and the pattern \<^verbatim>\<open>\s\<close>), the pattern \<^verbatim>\<open>\w\<close>,
  \<^verbatim>\<open>str.lower\<close>, the general category C, and NFC.

  Texts with code points above U+00FF are outside the model, and every statement below
  about texts is a statement about texts of code points up to U+00FF only. The limit
  matters for the hashing pipelines: above it NFC composes characters and
  \<^verbatim>\<open>str.lower\<close> depends on the neighbours of a character, so that the order in which
  the source applies NFC, \<^verbatim>\<open>lower\<close> and its deletions changes the result there, which
  it does not on this range.
\<close>

definition cp :: "char \<Rightarrow> nat" where
  "cp c = of_char c"

definition is_space :: "char \<Rightarrow> bool" where
  "is_space c = ((9 \<le> cp c \<and> cp c \<le> 13) \<or> (28 \<le> cp c \<and> cp c \<le> 32) \<or> cp c = 133 \<or> cp c = 160)"


definition is_category_C :: "char \<Rightarrow> bool" where
  "is_category_C c = (cp c \<le> 31 \<or> (127 \<le> cp c \<and> cp c \<le> 159) \<or> cp c = 173)"

definition lower_char :: "char \<Rightarrow> char" where
  "lower_char c =
     (if (65 \<le> cp c \<and> cp c \<le> 90) \<or> (192 \<le> cp c \<and> cp c \<le> 222 \<and> cp c \<noteq> 215)
      then char_of (cp c + 32) else c)"

text \<open>
  \<^verbatim>\<open>s.lower()\<close> on code points up to U+00FF lowers each character by itself, and the
  result stays in the range; the context rule of \<^verbatim>\<open>str.lower\<close> concerns U+03A3 only.
\<close>

definition py_lower :: "string \<Rightarrow> string" where
  "py_lower s = map lower_char s"

text \<open>
  \<^verbatim>\<open>unicodedata.normalize('NFC', s)\<close> on code points up to U+00FF: no such character is
  a combining mark or decomposes into one that recombines differently, so the string is
  returned as it is. The definitions below call \<open>nfc\<close> where the source calls it.
\<close>

definition nfc :: "string \<Rightarrow> string" where
  "nfc s = s"

definition py_strip :: "string \<Rightarrow> string" where
  "py_strip s = rev (dropWhile is_space (rev (dropWhile is_space s)))"

text \<open>\<^verbatim>\<open>s.split()\<close>: the maximal runs of non-whitespace characters.\<close>

fun split_from :: "string \<Rightarrow> string \<Rightarrow> string list" where
  "split_from cur [] = (if cur = [] then [] else [cur])"
| "split_from cur (c # cs) =
     (if is_space c then (if cur = [] then split_from [] cs else cur # split_from [] cs)
      else split_from (cur @ [c]) cs)"

definition py_split :: "string \<Rightarrow> string list" where
  "py_split s = split_from [] s"

text \<open>\<^verbatim>\<open>re.sub(r'\s+', ' ', s)\<close>: every maximal whitespace run becomes one space.\<close>

fun collapse_ws :: "string \<Rightarrow> string" where
  "collapse_ws [] = []"
| "collapse_ws [c] = (if is_space c then '' '' else [c])"
| "collapse_ws (c # d # cs) =
     (if is_space c then (if is_space d then collapse_ws (d # cs) else CHR '' '' # collapse_ws (d # cs))
      else c # collapse_ws (d # cs))"

text \<open>\<^verbatim>\<open>s.encode('utf-8')\<close> on code points up to U+00FF: one byte below 128, else two.\<close>

definition utf8_char :: "char \<Rightarrow> nat list" where
  "utf8_char c = (if cp c < 128 then [cp c] else [192 + cp c div 64, 128 + cp c mod 64])"

definition utf8 :: "string \<Rightarrow> nat list" where
  "utf8 s = concat (map utf8_char s)"

text \<open>
  \<^verbatim>\<open>hashlib.sha256(b).hexdigest()\<close> is a library function outside the repository. The
  digest is modelled symbolically by the bytes hashed: two digests are equal exactly when
  their preimages are, which idealises SHA-256 as free of collisions. Every equality of
  digests proved below holds of the real function; an inequality says that different byte
  strings are hashed.
\<close>

datatype hexdigest = Sha256_hex "nat list"

section \<open>TextProcessor (src/utils/text\_processor.py)\<close>

definition MIN_TEXT_LENGTH :: nat where
  "MIN_TEXT_LENGTH = 10"

definition MAX_TEXT_LENGTH :: nat where
  "MAX_TEXT_LENGTH = 2000"

definition MIN_SENTENCE_LENGTH :: nat where
  "MIN_SENTENCE_LENGTH = 10"












definition is_upper_AZ :: "char \<Rightarrow> bool" where
  "is_upper_AZ c = (65 \<le> cp c \<and> cp c \<le> 90)"











section \<open>TextHash (src/domain/value\_objects/text\_hash.py)\<close>

text \<open>
  \<^verbatim>\<open>TextHash(value=h)\<close> checks that \<open>h\<close> is 64 lower-case hex characters, which a
  \<^verbatim>\<open>hexdigest()\<close> is; the record holds the digest.
\<close>

record TextHash =
  th_value :: hexdigest

definition normalize_text :: "string \<Rightarrow> string" where
  "normalize_text text = nfc (py_lower (collapse_ws (py_strip text)))"

definition from_text :: "string \<Rightarrow> error + TextHash" where
  "from_text text =
     (if text = [] then Inl (ValueError ''Text must be a non-empty string'')
      else Inr \<lparr>th_value = Sha256_hex (utf8 (normalize_text text))\<rparr>)"


section \<open>Text (src/domain/entities/text.py)\<close>

text \<open>
  A pydantic constructor validates field by field: first the constraints declared with
  \<^verbatim>\<open>Field\<close>, then the field's validator on the value that passed them. \<open>and_then\<close>
  chains the fields; the first failure is the constructor's error.
\<close>

fun and_then :: "error + 'a \<Rightarrow> ('a \<Rightarrow> error + 'b) \<Rightarrow> error + 'b" where
  "and_then (Inl e) f = Inl e"
| "and_then (Inr x) f = f x"

record Text =
  original_content :: string
  normalized_content :: string
  text_hash :: TextHash
  language :: "string option"
  word_count :: nat
  character_count :: nat
  tx_keywords :: "string list"
  source_url :: "string option"
  tx_created_at :: nat
  tx_metadata :: "(string \<times> string) list"

definition validate_content_length :: "string \<Rightarrow> error + string" where
  "validate_content_length v =
     (if v = [] \<or> py_strip v = [] then Inl (ValueError ''Text content cannot be empty'')
      else if length (py_strip v) < 10 then Inl (ValueError ''Text must be at least 10 characters long'')
      else if length (py_strip v) > 2000 then Inl (ValueError ''Text cannot exceed 2000 characters'')
      else Inr (py_strip v))"

text \<open>
  \<^verbatim>\<open>re.match(r'^[a-z]{2}(-[A-Z]{2})?$', v)\<close>; \<^verbatim>\<open>$\<close> also matches before a newline that
  ends the string.
\<close>

definition is_lower_az :: "char \<Rightarrow> bool" where
  "is_lower_az c = (97 \<le> cp c \<and> cp c \<le> 122)"

fun language_shape :: "string \<Rightarrow> bool" where
  "language_shape [a, b] = (is_lower_az a \<and> is_lower_az b)"
| "language_shape [a, b, c, d, e] =
     (is_lower_az a \<and> is_lower_az b \<and> c = CHR ''-'' \<and> is_upper_AZ d \<and> is_upper_AZ e)"
| "language_shape v = False"

definition matches_language_pattern :: "string \<Rightarrow> bool" where
  "matches_language_pattern v =
     (language_shape v \<or> (v \<noteq> [] \<and> last v = CHR 0x0A \<and> language_shape (butlast v)))"

definition validate_language_code :: "string option \<Rightarrow> string option" where
  "validate_language_code v =
     (case v of
        None \<Rightarrow> Some ''pt''
      | Some s \<Rightarrow> if \<not> matches_language_pattern s then Some ''pt'' else Some (py_lower s))"

definition keyword_step :: "string list \<times> string set \<Rightarrow> string \<Rightarrow> string list \<times> string set" where
  "keyword_step st keyword =
     (let clean_keyword = py_lower (py_strip keyword)
      in if clean_keyword \<noteq> [] \<and> length clean_keyword \<ge> 2 \<and> clean_keyword \<notin> snd st
         then (fst st @ [clean_keyword], insert clean_keyword (snd st)) else st)"

definition validate_keywords :: "string list \<Rightarrow> string list" where
  "validate_keywords v = (if v = [] then [] else take 20 (fst (foldl keyword_step ([], {}) v)))"

definition normalize_content :: "string \<Rightarrow> string" where
  "normalize_content content =
     filter (\<lambda>c. \<not> is_category_C c \<or> c \<in> {CHR 0x0A, CHR 0x0D, CHR 0x09})
       (nfc (collapse_ws (py_strip content)))"

text \<open>The constructor \<^verbatim>\<open>Text(...)\<close>, with the \<^verbatim>\<open>Field\<close> constraints of the class.\<close>

definition field_original_content :: "string \<Rightarrow> error + string" where
  "field_original_content v =
     (if length v < 10 \<or> length v > 2000 then Inl (ValidationError ''original_content'')
      else wrap_validation ''original_content'' (validate_content_length v))"

definition field_language :: "string option \<Rightarrow> error + string option" where
  "field_language v =
     (case v of
        None \<Rightarrow> Inr (validate_language_code None)
      | Some s \<Rightarrow> if length s < 2 \<or> length s > 5 then Inl (ValidationError ''language'')
                  else Inr (validate_language_code (Some s)))"

definition field_keywords :: "string list \<Rightarrow> error + string list" where
  "field_keywords v =
     (if length v > 20 then Inl (ValidationError ''keywords'') else Inr (validate_keywords v))"

definition field_source_url :: "string option \<Rightarrow> error + string option" where
  "field_source_url v =
     (case v of
        None \<Rightarrow> Inr None
      | Some s \<Rightarrow> if length s > 500 then Inl (ValidationError ''source_url'') else Inr (Some s))"

definition Text_init ::
  "string \<Rightarrow> string \<Rightarrow> TextHash \<Rightarrow> string option \<Rightarrow> nat \<Rightarrow> nat \<Rightarrow> string list \<Rightarrow> string option \<Rightarrow> nat
     \<Rightarrow> error + Text" where
  "Text_init oc nc th lang wc cc kws url now =
     and_then (field_original_content oc) (\<lambda>oc'.
     and_then (field_language lang) (\<lambda>lang'.
     and_then (if wc < 1 then Inl (ValidationError ''word_count'') else Inr wc) (\<lambda>wc'.
     and_then (if cc < 10 \<or> cc > 2000 then Inl (ValidationError ''character_count'') else Inr cc) (\<lambda>cc'.
     and_then (field_keywords kws) (\<lambda>kws'.
     and_then (field_source_url url) (\<lambda>url'.
       Inr \<lparr>original_content = oc', normalized_content = nc, text_hash = th, language = lang',
            word_count = wc', character_count = cc', tx_keywords = kws', source_url = url',
            tx_created_at = now, tx_metadata = []\<rparr>))))))"

text \<open>
  \<^verbatim>\<open>Text.create\<close>; \<open>now\<close> is the clock reading that \<^verbatim>\<open>datetime.utcnow\<close> supplies.
  \<^verbatim>\<open>language or "pt"\<close> and \<^verbatim>\<open>keywords or []\<close> replace \<^verbatim>\<open>None\<close> and the empty value.
\<close>

definition Text_create ::
  "string \<Rightarrow> string option \<Rightarrow> string option \<Rightarrow> string list option \<Rightarrow> nat \<Rightarrow> error + Text" where
  "Text_create content url lang kws now =
     (if content = [] \<or> py_strip content = [] then Inl (ValueError ''Content cannot be empty'')
      else
        let original = py_strip content;
            normalized = normalize_content original
        in and_then (from_text normalized) (\<lambda>th.
             Text_init original normalized th
               (case lang of None \<Rightarrow> Some ''pt'' | Some l \<Rightarrow> if l = [] then Some ''pt'' else Some l)
               (length (py_split normalized)) (length original)
               (case kws of None \<Rightarrow> [] | Some k \<Rightarrow> k) url now))"



section \<open>Classification (src/domain/entities/classification.py)\<close>

record Classification =
  classification_type :: ClassificationType
  confidence :: ConfidenceScore
  reasoning :: "string option"
  evidence_sources :: "string list"
  cl_metadata :: "(string \<times> string) list"

text \<open>\<^verbatim>\<open>list(dict.fromkeys(xs))\<close>: the keys in the order of their first insertion.\<close>

definition dict_fromkeys :: "'a list \<Rightarrow> 'a list" where
  "dict_fromkeys xs = foldl (\<lambda>d k. if k \<in> set d then d else d @ [k]) [] xs"

definition validate_evidence_sources :: "string list \<Rightarrow> string list" where
  "validate_evidence_sources v =
     take 10 (dict_fromkeys (map py_strip (filter (\<lambda>source. py_strip source \<noteq> []) v)))"

definition validate_reasoning :: "string option \<Rightarrow> string option" where
  "validate_reasoning v =
     (case v of
        None \<Rightarrow> None
      | Some s \<Rightarrow> if py_strip s = [] then None else Some (py_strip s))"

text \<open>
  The constructor \<^verbatim>\<open>Classification(...)\<close>: \<^verbatim>\<open>reasoning\<close> has \<^verbatim>\<open>max_length=1000\<close> and
  \<^verbatim>\<open>evidence_sources\<close> has \<^verbatim>\<open>max_items=10\<close>, which pydantic checks on the list
  passed in, before \<^verbatim>\<open>validate_evidence_sources\<close> runs.
\<close>

definition field_reasoning :: "string option \<Rightarrow> error + string option" where
  "field_reasoning v =
     (case v of
        None \<Rightarrow> Inr (validate_reasoning None)
      | Some s \<Rightarrow> if length s > 1000 then Inl (ValidationError ''reasoning'')
                  else Inr (validate_reasoning (Some s)))"

definition field_evidence_sources :: "string list \<Rightarrow> error + string list" where
  "field_evidence_sources v =
     (if length v > 10 then Inl (ValidationError ''evidence_sources'')
      else Inr (validate_evidence_sources v))"

definition Classification_init ::
  "ClassificationType \<Rightarrow> ConfidenceScore \<Rightarrow> string option \<Rightarrow> string list \<Rightarrow> error + Classification" where
  "Classification_init ty conf reason evidence =
     and_then (field_reasoning reason) (\<lambda>reason'.
     and_then (field_evidence_sources evidence) (\<lambda>evidence'.
       Inr \<lparr>classification_type = ty, confidence = conf, reasoning = reason',
            evidence_sources = evidence', cl_metadata = []\<rparr>))"

definition from_confidence_auto ::
  "ConfidenceScore \<Rightarrow> string option \<Rightarrow> string list option \<Rightarrow> error + Classification" where
  "from_confidence_auto conf reason evidence =
     Classification_init (from_confidence conf) conf reason
       (case evidence of None \<Rightarrow> [] | Some e \<Rightarrow> e)"

definition Classification_create_inconclusive ::
  "ConfidenceScore \<Rightarrow> string option \<Rightarrow> error + Classification" where
  "Classification_create_inconclusive conf reason =
     Classification_init INCONCLUSIVE conf
       (case reason of
          None \<Rightarrow> Some ''Insufficient evidence to determine reliability''
        | Some r \<Rightarrow> if r = [] then Some ''Insufficient evidence to determine reliability'' else Some r)
       []"

section \<open>AnalysisResult (src/domain/entities/analysis\_result.py)\<close>

datatype AnalysisSource = FACT_CHECK | LLM | VECTOR_SEARCH | CACHE | HYBRID | MANUAL

fun source_value :: "AnalysisSource \<Rightarrow> string" where
  "source_value FACT_CHECK = ''fact_check''"
| "source_value LLM = ''llm''"
| "source_value VECTOR_SEARCH = ''vector_search''"
| "source_value CACHE = ''cache''"
| "source_value HYBRID = ''hybrid''"
| "source_value MANUAL = ''manual''"

fun get_reliability_score :: "AnalysisSource \<Rightarrow> real" where
  "get_reliability_score FACT_CHECK = 0.95"
| "get_reliability_score VECTOR_SEARCH = 0.85"
| "get_reliability_score LLM = 0.75"
| "get_reliability_score HYBRID = 0.90"
| "get_reliability_score CACHE = 1.0"
| "get_reliability_score MANUAL = 1.0"

record AnalysisResult =
  ar_text :: Text
  classification :: Classification
  source :: AnalysisSource
  processing_time_ms :: int
  cost_cents :: int
  created_at :: nat
  expires_at :: "nat option"
  fact_check_sources :: "string list"
  similar_texts_found :: int
  api_response_raw :: "string option"
  metadata :: "(string \<times> string) list"

definition validate_processing_time :: "int \<Rightarrow> error + int" where
  "validate_processing_time v =
     (if v < 0 then Inl (ValueError ''Processing time cannot be negative'') else Inr v)"

definition validate_cost :: "int \<Rightarrow> error + int" where
  "validate_cost v = (if v < 0 then Inl (ValueError ''Cost cannot be negative'') else Inr v)"

definition source_step :: "string list \<times> string set \<Rightarrow> string \<Rightarrow> string list \<times> string set" where
  "source_step st src =
     (let clean_source = py_strip src
      in if clean_source \<noteq> [] \<and> clean_source \<notin> snd st
         then (fst st @ [clean_source], insert clean_source (snd st)) else st)"

definition validate_fact_check_sources :: "string list \<Rightarrow> string list" where
  "validate_fact_check_sources v =
     (if v = [] then [] else take 10 (fst (foldl source_step ([], {}) v)))"

definition field_processing_time_ms :: "int \<Rightarrow> error + int" where
  "field_processing_time_ms v =
     (if v < 0 then Inl (ValidationError ''processing_time_ms'')
      else wrap_validation ''processing_time_ms'' (validate_processing_time v))"

definition field_cost_cents :: "int \<Rightarrow> error + int" where
  "field_cost_cents v =
     (if v < 0 then Inl (ValidationError ''cost_cents'')
      else wrap_validation ''cost_cents'' (validate_cost v))"

definition field_fact_check_sources :: "string list \<Rightarrow> error + string list" where
  "field_fact_check_sources v =
     (if length v > 10 then Inl (ValidationError ''fact_check_sources'')
      else Inr (validate_fact_check_sources v))"

text \<open>
  The constructor \<^verbatim>\<open>AnalysisResult(...)\<close>; \<open>now\<close> is the clock reading for
  \<^verbatim>\<open>created_at\<close>. Fields a factory does not pass take their defaults.
\<close>

definition AnalysisResult_init ::
  "Text \<Rightarrow> Classification \<Rightarrow> AnalysisSource \<Rightarrow> int \<Rightarrow> int \<Rightarrow> nat option \<Rightarrow> string list \<Rightarrow>
     string option \<Rightarrow> (string \<times> string) list \<Rightarrow> nat \<Rightarrow> error + AnalysisResult" where
  "AnalysisResult_init t c src time cost expires sources raw meta now =
     and_then (field_processing_time_ms time) (\<lambda>time'.
     and_then (field_cost_cents cost) (\<lambda>cost'.
     and_then (field_fact_check_sources sources) (\<lambda>sources'.
       Inr \<lparr>ar_text = t, classification = c, source = src, processing_time_ms = time',
            cost_cents = cost', created_at = now, expires_at = expires,
            fact_check_sources = sources', similar_texts_found = 0,
            api_response_raw = raw, metadata = meta\<rparr>)))"

definition create_from_fact_check ::
  "Text \<Rightarrow> Classification \<Rightarrow> int \<Rightarrow> string list \<Rightarrow> int \<Rightarrow> nat option \<Rightarrow> nat \<Rightarrow> error + AnalysisResult" where
  "create_from_fact_check t c time sources cost expires now =
     AnalysisResult_init t c FACT_CHECK time cost expires sources None [] now"

definition create_from_llm ::
  "Text \<Rightarrow> Classification \<Rightarrow> int \<Rightarrow> int \<Rightarrow> string option \<Rightarrow> nat option \<Rightarrow> nat \<Rightarrow> error + AnalysisResult" where
  "create_from_llm t c time cost raw expires now =
     AnalysisResult_init t c LLM time cost expires [] raw [] now"

text \<open>
  \<^verbatim>\<open>create_from_cache\<close>; the parameter \<^verbatim>\<open>processing_time_ms: int = 1\<close> is \<open>None\<close> when
  the caller leaves it out.
\<close>

definition create_from_cache ::
  "Text \<Rightarrow> Classification \<Rightarrow> AnalysisSource \<Rightarrow> int option \<Rightarrow> nat \<Rightarrow> error + AnalysisResult" where
  "create_from_cache t c original_source time now =
     AnalysisResult_init t c CACHE (case time of None \<Rightarrow> 1 | Some ms \<Rightarrow> ms) 0 None [] None
       [(''original_source'', source_value original_source)] now"

definition create_inconclusive :: "Text \<Rightarrow> int \<Rightarrow> string option \<Rightarrow> nat \<Rightarrow> error + AnalysisResult" where
  "create_inconclusive t time reason now =
     and_then (ConfidenceScore_of 0.5) (\<lambda>conf.
     and_then (Classification_create_inconclusive conf
                 (case reason of None \<Rightarrow> Some ''Unable to determine reliability'' | Some r \<Rightarrow> Some r)) (\<lambda>c.
       AnalysisResult_init t c HYBRID time 0 None [] None [] now))"

definition is_cached :: "AnalysisResult \<Rightarrow> bool" where
  "is_cached r = (source r = CACHE)"

definition is_expired :: "AnalysisResult \<Rightarrow> nat \<Rightarrow> bool" where
  "is_expired r now = (case expires_at r of None \<Rightarrow> False | Some e \<Rightarrow> now > e)"

definition get_performance_score :: "AnalysisResult \<Rightarrow> real" where
  "get_performance_score r =
     (let confidence_score = cs_value (confidence (classification r)) * 0.4;
          speed_score = min 1.0 (5000 / of_int (max (processing_time_ms r) 100)) * 0.3;
          cost_score = min 1.0 (50 / of_int (max (cost_cents r) 1)) * 0.2;
          source_score = get_reliability_score (source r) * 0.1
      in confidence_score + speed_score + cost_score + source_score)"

section \<open>Sample values\<close>

text \<open>A text, a classification and a result, used where a theorem is run on a concrete input.\<close>

definition sample_text :: Text where
  "sample_text =
     \<lparr>original_content = ''Test Article'', normalized_content = ''Test Article'',
      text_hash = \<lparr>th_value = Sha256_hex (utf8 ''test article'')\<rparr>, language = Some ''pt'',
      word_count = 2, character_count = 12, tx_keywords = [], source_url = None,
      tx_created_at = 0, tx_metadata = []\<rparr>"

definition sample_classification :: Classification where
  "sample_classification =
     \<lparr>classification_type = RELIABLE, confidence = \<lparr>cs_value = 0.9\<rparr>, reasoning = None,
      evidence_sources = [], cl_metadata = []\<rparr>"

definition sample_result :: AnalysisResult where
  "sample_result =
     \<lparr>ar_text = sample_text, classification = sample_classification, source = FACT_CHECK,
      processing_time_ms = 1000, cost_cents = 5, created_at = 0, expires_at = None,
      fact_check_sources = [], similar_texts_found = 0, api_response_raw = None, metadata = []\<rparr>"

section \<open>Order of first occurrence\<close>

text \<open>
  The position at which a value first occurs in a list, and the values of a list in the
  order of their first occurrence: what the claims about first-seen order refer to.
\<close>

definition first_index :: "'a list \<Rightarrow> 'a \<Rightarrow> nat" where
  "first_index xs x = length (takeWhile (\<lambda>y. y \<noteq> x) xs)"

fun first_seen :: "'a list \<Rightarrow> 'a list" where
  "first_seen [] = []"
| "first_seen (x # xs) = x # filter (\<lambda>y. y \<noteq> x) (first_seen xs)"






section \<open>Notions used to state the hashing claims\<close>








text \<open>The fingerprint that \<^verbatim>\<open>Text.create(t)\<close> stores, when it succeeds.\<close>

definition Text_create_fingerprint :: "string \<Rightarrow> error + hexdigest" where
  "Text_create_fingerprint t =
     and_then (Text_create t None None None 0) (\<lambda>x. Inr (th_value (text_hash x)))"

section \<open>Rounding lemmas\<close>

lemma round_half_even_bounds:
  "of_int (round_half_even x) - 1/2 \<le> x \<and> x \<le> of_int (round_half_even x) + 1/2"
  unfolding round_half_even_def Let_def
  by (auto; linarith)

lemma round_half_even_of_int: "round_half_even (of_int k) = k"
  by (simp add: round_half_even_def)

lemma round_half_even_mono_lower:
  assumes "of_int k \<le> x"
  shows "k \<le> round_half_even x"
proof -
  have "k \<le> \<lfloor>x\<rfloor>" using assms by (simp add: le_floor_iff)
  then show ?thesis
    unfolding round_half_even_def Let_def by auto
qed

lemma round_half_even_mono_upper:
  assumes "x \<le> of_int k"
  shows "round_half_even x \<le> k"
proof (cases "x = of_int k")
  case True
  then show ?thesis by (simp add: round_half_even_of_int)
next
  case False
  with assms have lt: "x < of_int k" by simp
  then have "\<lfloor>x\<rfloor> < k" by (simp add: floor_less_iff)
  then show ?thesis
    unfolding round_half_even_def Let_def by auto
qed

lemma py_round_range:
  assumes "0 \<le> v" "v \<le> 1"
  shows "0 \<le> py_round v n \<and> py_round v n \<le> 1"
proof -
  have p: "(0::real) < 10 ^ n" by simp
  have "of_int 0 \<le> v * 10 ^ n" using assms by simp
  then have lo: "0 \<le> round_half_even (v * 10 ^ n)"
    by (rule round_half_even_mono_lower)
  have "v * 10 ^ n \<le> of_int (10 ^ n)" using assms by simp
  then have hi: "round_half_even (v * 10 ^ n) \<le> 10 ^ n"
    by (rule round_half_even_mono_upper)
  have "py_round v n \<le> 1"
  proof -
    have "(of_int (round_half_even (v * 10 ^ n)) :: real) \<le> of_int (10 ^ n)"
      using hi by (rule of_int_le_iff [THEN iffD2])
    then show ?thesis using p by (simp add: py_round_def)
  qed
  moreover have "0 \<le> py_round v n"
    using lo p by (simp add: py_round_def)
  ultimately show ?thesis by simp
qed

lemma py_round_close: "\<bar>py_round v n - v\<bar> \<le> 1 / (2 * 10 ^ n)"
proof -
  have p: "(0::real) < 10 ^ n" by simp
  let ?r = "of_int (round_half_even (v * 10 ^ n)) :: real"
  have "\<bar>?r - v * 10 ^ n\<bar> \<le> 1/2"
    using round_half_even_bounds [of "v * 10 ^ n"] by linarith
  then have "\<bar>?r - v * 10 ^ n\<bar> / 10 ^ n \<le> (1/2) / 10 ^ n"
    by (rule divide_right_mono) simp
  moreover have "\<bar>?r - v * 10 ^ n\<bar> / 10 ^ n = \<bar>?r / 10 ^ n - v\<bar>"
  proof -
    have "?r / 10 ^ n - v = (?r - v * 10 ^ n) / 10 ^ n"
      using p by (simp add: field_simps)
    then show ?thesis using p by (simp add: abs_divide)
  qed
  ultimately show ?thesis by (simp add: py_round_def)
qed

lemma py_round_idem: "py_round (py_round v n) n = py_round v n"
  by (simp add: py_round_def round_half_even_of_int)


lemma py_round_eval:
  "py_round (79999/100000) 4 = 4/5" "py_round (39999/100000) 4 = 2/5" "py_round (19999/100000) 4 = 1/5"
  "py_round (7999/10000) 4 = 7999/10000" "py_round (3999/10000) 4 = 3999/10000" "py_round (1999/10000) 4 = 1999/10000"
  "py_round (4/5) 4 = 4/5" "py_round (2/5) 4 = 2/5" "py_round (1/5) 4 = 1/5" "py_round (1/2) 4 = 1/2"
  by (simp_all add: py_round_def round_half_even_def Let_def)

section \<open>Confidence and classification\<close>

text \<open>
  Claim C1, as stated, at the boundary inputs just below a threshold:
  \<^verbatim>\<open>ConfidenceScore.of\<close> stores \<^verbatim>\<open>round(v, 4)\<close>, so 0.79999 is stored as 0.8 and
  classified RELIABLE, not INCONCLUSIVE; 0.39999 is stored as 0.4 and classified
  INCONCLUSIVE, not UNFOUNDED; 0.19999 is stored as 0.2 and classified UNFOUNDED, not FAKE.
\<close>

theorem classify_rounded_boundary_counterexample:
  "classify_value (79999/100000) = Inr RELIABLE \<and>
   classify_value (79999/100000) \<noteq> Inr INCONCLUSIVE \<and>
   classify_value (39999/100000) = Inr INCONCLUSIVE \<and>
   classify_value (39999/100000) \<noteq> Inr UNFOUNDED \<and>
   classify_value (19999/100000) = Inr UNFOUNDED \<and>
   classify_value (19999/100000) \<noteq> Inr FAKE"
  by (simp add: classify_value_def ConfidenceScore_of_def validate_range_def from_confidence_def
      py_round_def round_half_even_def Let_def)

text \<open>
  Claim C1, amended. \<^verbatim>\<open>from_confidence\<close> maps the stored value of a score with
  inclusive lower bounds: at least 0.8 gives RELIABLE, from 0.4 up to but excluding 0.8
  gives INCONCLUSIVE, from 0.2 up to but excluding 0.4 gives UNFOUNDED, below 0.2 gives
  FAKE. For every raw value in [0,1] the score is built and classified by its value
  rounded to 4 decimals. In particular 0.8 gives RELIABLE, 0.7999 INCONCLUSIVE, 0.4
  INCONCLUSIVE, 0.3999 UNFOUNDED, 0.2 UNFOUNDED and 0.1999 FAKE.
\<close>

theorem from_confidence_bands:
  "(cs_value c \<ge> 0.8 \<longrightarrow> from_confidence c = RELIABLE) \<and>
   (0.4 \<le> cs_value c \<and> cs_value c < 0.8 \<longrightarrow> from_confidence c = INCONCLUSIVE) \<and>
   (0.2 \<le> cs_value c \<and> cs_value c < 0.4 \<longrightarrow> from_confidence c = UNFOUNDED) \<and>
   (cs_value c < 0.2 \<longrightarrow> from_confidence c = FAKE) \<and>
   (0 \<le> v \<and> v \<le> 1 \<longrightarrow>
      classify_value v = Inr (from_confidence \<lparr>cs_value = py_round v 4\<rparr>)) \<and>
   classify_value 0.8 = Inr RELIABLE \<and> classify_value 0.7999 = Inr INCONCLUSIVE \<and>
   classify_value 0.4 = Inr INCONCLUSIVE \<and> classify_value 0.3999 = Inr UNFOUNDED \<and>
   classify_value 0.2 = Inr UNFOUNDED \<and> classify_value 0.1999 = Inr FAKE"
proof -
  have bands:
    "(cs_value c \<ge> 0.8 \<longrightarrow> from_confidence c = RELIABLE) \<and>
     (0.4 \<le> cs_value c \<and> cs_value c < 0.8 \<longrightarrow> from_confidence c = INCONCLUSIVE) \<and>
     (0.2 \<le> cs_value c \<and> cs_value c < 0.4 \<longrightarrow> from_confidence c = UNFOUNDED) \<and>
     (cs_value c < 0.2 \<longrightarrow> from_confidence c = FAKE)"
    by (simp add: from_confidence_def)
  have total: "0 \<le> v \<and> v \<le> 1 \<longrightarrow>
      classify_value v = Inr (from_confidence \<lparr>cs_value = py_round v 4\<rparr>)"
    by (simp add: classify_value_def ConfidenceScore_of_def validate_range_def)
  have pts: "classify_value 0.8 = Inr RELIABLE \<and> classify_value 0.7999 = Inr INCONCLUSIVE \<and>
   classify_value 0.4 = Inr INCONCLUSIVE \<and> classify_value 0.3999 = Inr UNFOUNDED \<and>
   classify_value 0.2 = Inr UNFOUNDED \<and> classify_value 0.1999 = Inr FAKE"
    by (simp add: classify_value_def ConfidenceScore_of_def validate_range_def from_confidence_def
      py_round_def round_half_even_def Let_def)
  from bands total pts show ?thesis by simp
qed

theorem from_confidence_bands_witness:
  "from_confidence \<lparr>cs_value = 0.9\<rparr> = RELIABLE \<and>
   from_confidence \<lparr>cs_value = 0.5\<rparr> = INCONCLUSIVE \<and>
   from_confidence \<lparr>cs_value = 0.3\<rparr> = UNFOUNDED \<and>
   from_confidence \<lparr>cs_value = 0.1\<rparr> = FAKE \<and>
   classify_value 0.5 = Inr INCONCLUSIVE"
  using from_confidence_bands [of "\<lparr>cs_value = 0.9\<rparr>" "0.5"]
        from_confidence_bands [of "\<lparr>cs_value = 0.5\<rparr>" "0.5"]
        from_confidence_bands [of "\<lparr>cs_value = 0.3\<rparr>" "0.5"]
        from_confidence_bands [of "\<lparr>cs_value = 0.1\<rparr>" "0.5"]
  by (simp add: py_round_eval)

text \<open>
  Claim C4. Constructing a ConfidenceScore from \<open>v\<close> fails with the range error of field
  \<^verbatim>\<open>value\<close> when \<open>v < 0\<close> or \<open>v > 1\<close>. For \<open>v\<close> in [0,1] it succeeds and stores
  \<^verbatim>\<open>round(v, 4)\<close>, which lies in [0,1], is within half a unit of the fourth decimal of
  \<open>v\<close>, and is left unchanged by rounding again.
\<close>

theorem ConfidenceScore_of_range:
  "(v < 0 \<or> 1 < v \<longrightarrow> ConfidenceScore_of v = Inl (ValidationError ''value'')) \<and>
   (0 \<le> v \<and> v \<le> 1 \<longrightarrow>
      ConfidenceScore_of v = Inr \<lparr>cs_value = py_round v 4\<rparr> \<and>
      0 \<le> py_round v 4 \<and> py_round v 4 \<le> 1 \<and>
      \<bar>py_round v 4 - v\<bar> \<le> 1 / 20000 \<and>
      py_round (py_round v 4) 4 = py_round v 4)"
proof -
  have fail: "v < 0 \<or> 1 < v \<longrightarrow> ConfidenceScore_of v = Inl (ValidationError ''value'')"
    by (simp add: ConfidenceScore_of_def)
  have ok: "0 \<le> v \<and> v \<le> 1 \<longrightarrow> ConfidenceScore_of v = Inr \<lparr>cs_value = py_round v 4\<rparr>"
    by (simp add: ConfidenceScore_of_def validate_range_def)
  have rng: "0 \<le> v \<and> v \<le> 1 \<longrightarrow> 0 \<le> py_round v 4 \<and> py_round v 4 \<le> 1"
    using py_round_range [of v 4] by blast
  have close: "\<bar>py_round v 4 - v\<bar> \<le> 1 / 20000"
    using py_round_close [of v 4] by simp
  from fail ok rng close py_round_idem [of v 4] show ?thesis by blast
qed

theorem ConfidenceScore_of_range_witness:
  "ConfidenceScore_of (3/2) = Inl (ValidationError ''value'') \<and>
   ConfidenceScore_of (-1/10) = Inl (ValidationError ''value'') \<and>
   ConfidenceScore_of (79999/100000) = Inr \<lparr>cs_value = 4/5\<rparr>"
  using ConfidenceScore_of_range [of "3/2"] ConfidenceScore_of_range [of "-1/10"]
        ConfidenceScore_of_range [of "79999/100000"]
  by (simp add: py_round_eval)


section \<open>Analysis results\<close>

lemma saturate_bounds: "0 < d \<Longrightarrow> 0 \<le> n \<Longrightarrow> 0 \<le> min 1 (n / d :: real) \<and> min 1 (n / d) \<le> 1"
  by simp

text \<open>
  Claim C5. For every result with confidence in [0,1], non-negative processing time and
  non-negative cost, \<^verbatim>\<open>get_performance_score\<close> is
  0.4 * confidence + 0.3 * min(1, 5000 / max(time, 100)) + 0.2 * min(1, 50 / max(cost, 1))
  + 0.1 * reliability(source), with the reliability table FACT_CHECK 0.95, VECTOR_SEARCH
  0.85, LLM 0.75, HYBRID 0.90, CACHE 1.0, MANUAL 1.0, and the score lies in [0,1].
\<close>

theorem get_performance_score_bounds:
  assumes "0 \<le> cs_value (confidence (classification r))"
    and "cs_value (confidence (classification r)) \<le> 1"
    and "0 \<le> processing_time_ms r" and "0 \<le> cost_cents r"
  shows "get_performance_score r =
           0.4 * cs_value (confidence (classification r))
           + 0.3 * min 1 (5000 / of_int (max (processing_time_ms r) 100))
           + 0.2 * min 1 (50 / of_int (max (cost_cents r) 1))
           + 0.1 * get_reliability_score (source r)
         \<and> get_reliability_score FACT_CHECK = 0.95 \<and> get_reliability_score VECTOR_SEARCH = 0.85
         \<and> get_reliability_score LLM = 0.75 \<and> get_reliability_score HYBRID = 0.90
         \<and> get_reliability_score CACHE = 1.0 \<and> get_reliability_score MANUAL = 1.0
         \<and> 0 \<le> get_performance_score r \<and> get_performance_score r \<le> 1"
proof -
  let ?c = "cs_value (confidence (classification r))"
  let ?s = "min 1 (5000 / real_of_int (max (processing_time_ms r) 100))"
  let ?k = "min 1 (50 / real_of_int (max (cost_cents r) 1))"
  let ?q = "get_reliability_score (source r)"
  have eq: "get_performance_score r = 0.4 * ?c + 0.3 * ?s + 0.2 * ?k + 0.1 * ?q"
    by (simp add: get_performance_score_def Let_def)
  have s: "0 \<le> ?s \<and> ?s \<le> 1" by (rule saturate_bounds) simp_all
  have k: "0 \<le> ?k \<and> ?k \<le> 1" by (rule saturate_bounds) simp_all
  have q: "0 \<le> ?q \<and> ?q \<le> 1" by (cases "source r") simp_all
  have lo: "0 \<le> 0.4 * ?c + 0.3 * ?s + 0.2 * ?k + 0.1 * ?q"
    using assms(1) s k q by simp
  have hi: "0.4 * ?c + 0.3 * ?s + 0.2 * ?k + 0.1 * ?q \<le> 1"
    using assms(2) s k q by linarith
  show ?thesis
    using eq lo hi by simp
qed

theorem get_performance_score_bounds_witness:
  "get_performance_score sample_result = 0.955 \<and>
   0 \<le> get_performance_score sample_result \<and> get_performance_score sample_result \<le> 1"
  using get_performance_score_bounds [of sample_result]
  by (simp add: sample_result_def sample_classification_def)

text \<open>
  Claim C6. \<^verbatim>\<open>create_from_cache\<close> without an explicit time always builds a result, with
  source CACHE, cost 0, processing time 1 and the original source's value under
  \<^verbatim>\<open>original_source\<close> in its metadata; every result it builds with an explicit time
  has source CACHE, cost 0 and the same metadata entry.
\<close>

theorem create_from_cache_fields:
  "(\<exists>r. create_from_cache t c original_source None now = Inr r \<and>
        source r = CACHE \<and> cost_cents r = 0 \<and> processing_time_ms r = 1 \<and>
        map_of (metadata r) ''original_source'' = Some (source_value original_source)) \<and>
   (create_from_cache t c original_source time now = Inr r' \<longrightarrow>
        source r' = CACHE \<and> cost_cents r' = 0 \<and>
        map_of (metadata r') ''original_source'' = Some (source_value original_source))"
  by (auto simp: create_from_cache_def AnalysisResult_init_def field_processing_time_ms_def
      field_cost_cents_def field_fact_check_sources_def validate_processing_time_def
      validate_cost_def validate_fact_check_sources_def split: option.splits if_splits)

theorem create_from_cache_fields_witness:
  "create_from_cache sample_text sample_classification LLM (Some 7) 0 =
     Inr \<lparr>ar_text = sample_text, classification = sample_classification, source = CACHE,
          processing_time_ms = 7, cost_cents = 0, created_at = 0, expires_at = None,
          fact_check_sources = [], similar_texts_found = 0, api_response_raw = None,
          metadata = [(''original_source'', ''llm'')]\<rparr> \<and>
   map_of [(''original_source'', ''llm'')] ''original_source'' = Some (source_value LLM)"
  using create_from_cache_fields [of sample_text sample_classification LLM 0 "Some 7"
     "\<lparr>ar_text = sample_text, classification = sample_classification, source = CACHE,
          processing_time_ms = 7, cost_cents = 0, created_at = 0, expires_at = None,
          fact_check_sources = [], similar_texts_found = 0, api_response_raw = None,
          metadata = [(''original_source'', ''llm'')]\<rparr>"]
  by (simp add: create_from_cache_def AnalysisResult_init_def field_processing_time_ms_def
      field_cost_cents_def field_fact_check_sources_def validate_processing_time_def
      validate_cost_def validate_fact_check_sources_def)

subsection \<open>First-occurrence order\<close>

lemma set_first_seen: "set (first_seen xs) = set xs"
  by (induction xs) auto

lemma distinct_first_seen: "distinct (first_seen xs)"
  by (induction xs) (auto simp: set_first_seen)

lemma first_index_Cons:
  "first_index (x # xs) y = (if y = x then 0 else Suc (first_index xs y))"
  by (simp add: first_index_def)

lemma first_seen_sorted:
  "sorted_wrt (\<lambda>a b. first_index xs a < first_index xs b) (first_seen xs)"
proof (induction xs)
  case Nil
  show ?case by simp
next
  case (Cons x xs)
  let ?r = "filter (\<lambda>y. y \<noteq> x) (first_seen xs)"
  have "sorted_wrt (\<lambda>a b. first_index xs a < first_index xs b) ?r"
    using Cons.IH by (rule sorted_wrt_filter)
  then have "sorted_wrt (\<lambda>a b. first_index (x # xs) a < first_index (x # xs) b) ?r"
    by (rule sorted_wrt_mono_rel [rotated]) (simp add: first_index_Cons)
  moreover have "\<forall>y \<in> set ?r. first_index (x # xs) x < first_index (x # xs) y"
    by (simp add: first_index_Cons)
  ultimately show ?case by simp
qed

lemma sorted_wrt_take: "sorted_wrt R xs \<Longrightarrow> sorted_wrt R (take n xs)"
  by (metis append_take_drop_id sorted_wrt_append)

lemma fromkeys_foldl:
  "foldl (\<lambda>d k. if k \<in> set d then d else d @ [k]) acc xs
     = acc @ filter (\<lambda>y. y \<notin> set acc) (first_seen xs)"
proof (induction xs arbitrary: acc)
  case Nil
  show ?case by simp
next
  case (Cons x xs)
  show ?case
  proof (cases "x \<in> set acc")
    case True
    then have "filter (\<lambda>y. y \<notin> set acc) (filter (\<lambda>y. y \<noteq> x) (first_seen xs))
                 = filter (\<lambda>y. y \<notin> set acc) (first_seen xs)"
      by (auto intro: filter_cong)
    with True Cons.IH [of acc] show ?thesis by simp
  next
    case False
    have "filter (\<lambda>y. y \<notin> set (acc @ [x])) (first_seen xs)
            = filter (\<lambda>y. y \<notin> set acc) (filter (\<lambda>y. y \<noteq> x) (first_seen xs))"
      by (auto intro: filter_cong)
    with False Cons.IH [of "acc @ [x]"] show ?thesis by simp
  qed
qed

lemma dict_fromkeys_first_seen: "dict_fromkeys xs = first_seen xs"
  by (simp add: dict_fromkeys_def fromkeys_foldl)

subsection \<open>Stripping\<close>

lemma last_dropWhile: "dropWhile P xs \<noteq> [] \<Longrightarrow> last (dropWhile P xs) = last xs"
  by (metis last_appendR takeWhile_dropWhile_id)

lemma py_strip_ends:
  assumes "py_strip s \<noteq> []"
  shows "\<not> is_space (hd (py_strip s)) \<and> \<not> is_space (last (py_strip s))"
proof -
  let ?t = "dropWhile is_space s"
  let ?u = "dropWhile is_space (rev ?t)"
  have u: "?u \<noteq> []" using assms by (simp add: py_strip_def)
  have t: "?t \<noteq> []"
  proof
    assume e: "?t = []"
    have "?u = []" unfolding e by simp
    with u show False by simp
  qed
  have "\<not> is_space (hd ?u)" using u by (rule hd_dropWhile)
  then have l: "\<not> is_space (last (py_strip s))"
    using u by (simp add: py_strip_def last_rev)
  have "last ?u = last (rev ?t)" using u by (rule last_dropWhile)
  then have "hd (py_strip s) = hd ?t"
    using u t by (simp add: py_strip_def hd_rev last_rev)
  moreover have "\<not> is_space (hd ?t)" using t by (rule hd_dropWhile)
  ultimately show ?thesis using l by simp
qed

subsection \<open>The two source-list validators\<close>

lemma source_step_foldl:
  "fst (foldl source_step (acc, set acc) v)
     = foldl (\<lambda>d k. if k \<in> set d then d else d @ [k]) acc
         (filter (\<lambda>s. s \<noteq> []) (map py_strip v))"
proof (induction v arbitrary: acc)
  case Nil
  show ?case by simp
next
  case (Cons s v)
  show ?case
  proof (cases "py_strip s \<noteq> [] \<and> py_strip s \<notin> set acc")
    case True
    then have "source_step (acc, set acc) s = (acc @ [py_strip s], set (acc @ [py_strip s]))"
      by (simp add: source_step_def Let_def)
    with True Cons.IH [of "acc @ [py_strip s]"] show ?thesis by simp
  next
    case False
    then have "source_step (acc, set acc) s = (acc, set acc)"
      by (auto simp: source_step_def Let_def)
    with False Cons.IH [of acc] show ?thesis by auto
  qed
qed

lemma strip_filter_swap:
  "map py_strip (filter (\<lambda>source. py_strip source \<noteq> []) v)
     = filter (\<lambda>s. s \<noteq> []) (map py_strip v)"
  by (simp add: filter_map comp_def)

lemma validate_evidence_sources_eq:
  "validate_evidence_sources v = take 10 (first_seen (filter (\<lambda>s. s \<noteq> []) (map py_strip v)))"
  by (simp add: validate_evidence_sources_def dict_fromkeys_first_seen strip_filter_swap)

lemma validate_fact_check_sources_eq:
  "validate_fact_check_sources v = take 10 (first_seen (filter (\<lambda>s. s \<noteq> []) (map py_strip v)))"
proof (cases "v = []")
  case True
  then show ?thesis by (simp add: validate_fact_check_sources_def)
next
  case False
  have "fst (foldl source_step ([], {}) v)
          = first_seen (filter (\<lambda>s. s \<noteq> []) (map py_strip v))"
    using source_step_foldl [of "[]" v] by (simp add: fromkeys_foldl)
  with False show ?thesis by (simp add: validate_fact_check_sources_def)
qed

lemma first_index_filter_mono:
  assumes "P a" "P b" "first_index (filter P xs) a < first_index (filter P xs) b"
  shows "first_index xs a < first_index xs b"
  using assms
proof (induction xs)
  case Nil
  then show ?case by (simp add: first_index_def)
next
  case (Cons x xs)
  then show ?case
    by (cases "P x") (auto simp: first_index_Cons split: if_splits)
qed

lemma hygiene:
  fixes v :: "string list"
  defines "r \<equiv> take 10 (first_seen (filter (\<lambda>s. s \<noteq> []) (map py_strip v)))"
  shows "length r \<le> 10" "distinct r" "set r \<subseteq> py_strip ` set v"
    "\<forall>e \<in> set r. e \<noteq> [] \<and> \<not> is_space (hd e) \<and> \<not> is_space (last e)"
    "sorted_wrt (\<lambda>a b. first_index (map py_strip v) a < first_index (map py_strip v) b) r"
proof -
  let ?f = "filter (\<lambda>s. s \<noteq> []) (map py_strip v)"
  show "length r \<le> 10" by (simp add: r_def)
  show "distinct r" by (simp add: r_def distinct_first_seen)
  have sub: "set r \<subseteq> set ?f"
    unfolding r_def using set_take_subset [of 10 "first_seen ?f"] by (simp add: set_first_seen)
  then show "set r \<subseteq> py_strip ` set v" by auto
  show "\<forall>e \<in> set r. e \<noteq> [] \<and> \<not> is_space (hd e) \<and> \<not> is_space (last e)"
  proof
    fix e assume "e \<in> set r"
    with sub have "e \<in> set ?f" by blast
    then obtain s where "e = py_strip s" "py_strip s \<noteq> []" by auto
    then show "e \<noteq> [] \<and> \<not> is_space (hd e) \<and> \<not> is_space (last e)"
      using py_strip_ends [of s] by simp
  qed
  have "sorted_wrt (\<lambda>a b. first_index ?f a < first_index ?f b) r"
    unfolding r_def by (rule sorted_wrt_take) (rule first_seen_sorted)
  then show "sorted_wrt (\<lambda>a b. first_index (map py_strip v) a < first_index (map py_strip v) b) r"
  proof (rule sorted_wrt_mono_rel [rotated])
    fix a b assume "a \<in> set r" "b \<in> set r" "first_index ?f a < first_index ?f b"
    moreover from \<open>a \<in> set r\<close> \<open>b \<in> set r\<close> sub have "a \<noteq> []" "b \<noteq> []" by auto
    ultimately show "first_index (map py_strip v) a < first_index (map py_strip v) b"
      using first_index_filter_mono [of "\<lambda>s. s \<noteq> []" a b "map py_strip v"] by simp
  qed
qed
lemma strip_eval:
  "py_strip ''a'' = ''a''" "py_strip ''b'' = ''b''" "py_strip '''' = ''''" "py_strip ''  a '' = ''a''"
  by (simp_all add: py_strip_def is_space_def cp_def)

text \<open>
  Claim C7, as stated, at the list of twelve entries: the constructors reject it, because
  the fields are declared with \<^verbatim>\<open>max_items=10\<close> and that constraint is checked on the
  list passed in, before the validator that would shorten it runs.
\<close>

theorem sources_over_ten_counterexample:
  "Classification_init RELIABLE \<lparr>cs_value = 0.9\<rparr> None
     [''a'', ''a'', '''', ''b'', ''a'', ''a'', '''', ''b'', ''a'', ''a'', '''', ''b'']
     = Inl (ValidationError ''evidence_sources'') \<and>
   create_from_fact_check sample_text sample_classification 1000
     [''a'', ''a'', '''', ''b'', ''a'', ''a'', '''', ''b'', ''a'', ''a'', '''', ''b''] 5 None 0
     = Inl (ValidationError ''fact_check_sources'')"
  by (simp add: Classification_init_def field_reasoning_def validate_reasoning_def
      field_evidence_sources_def create_from_fact_check_def AnalysisResult_init_def
      field_processing_time_ms_def validate_processing_time_def field_cost_cents_def
      validate_cost_def field_fact_check_sources_def)

text \<open>
  Claim C7, amended. The two validators agree, and map every input list, of any length,
  to a list of at most 10 entries, each the stripped form of an input entry, none blank,
  none starting or ending with whitespace, no two equal, in the order in which the
  stripped entries first occur in the input; the list a, a, blank, b repeated three times
  gives a, b. A Classification or AnalysisResult is constructed only from a list of at
  most 10 entries, and then stores the validator's result; a longer list is rejected by
  the \<^verbatim>\<open>max_items=10\<close> constraint of the field.
\<close>

theorem source_list_hygiene:
  fixes v :: "string list"
  shows
  "validate_fact_check_sources v = validate_evidence_sources v \<and>
   length (validate_evidence_sources v) \<le> 10 \<and>
   distinct (validate_evidence_sources v) \<and>
   set (validate_evidence_sources v) \<subseteq> py_strip ` set v \<and>
   (\<forall>e \<in> set (validate_evidence_sources v). e \<noteq> [] \<and> \<not> is_space (hd e) \<and> \<not> is_space (last e)) \<and>
   sorted_wrt (\<lambda>a b. first_index (map py_strip v) a < first_index (map py_strip v) b)
     (validate_evidence_sources v) \<and>
   validate_evidence_sources
     [''a'', ''a'', '''', ''b'', ''a'', ''a'', '''', ''b'', ''a'', ''a'', '''', ''b''] = [''a'', ''b''] \<and>
   (length v \<le> 10 \<longrightarrow>
      Classification_init ty conf None v =
        Inr \<lparr>classification_type = ty, confidence = conf, reasoning = None,
             evidence_sources = validate_evidence_sources v, cl_metadata = []\<rparr>) \<and>
   (length v \<le> 10 \<and> 0 \<le> time \<and> 0 \<le> cost \<longrightarrow>
      (\<exists>r. create_from_fact_check t c time v cost expires now = Inr r \<and>
           fact_check_sources r = validate_fact_check_sources v)) \<and>
   (length v > 10 \<longrightarrow>
      Classification_init ty conf reason v \<in>
        {Inl (ValidationError ''reasoning''), Inl (ValidationError ''evidence_sources'')} \<and>
      (\<exists>e. create_from_fact_check t c time v cost expires now = Inl e))"
proof -
  have same: "validate_fact_check_sources v = validate_evidence_sources v"
    by (simp add: validate_evidence_sources_eq validate_fact_check_sources_eq)
  have ex: "validate_evidence_sources
     [''a'', ''a'', '''', ''b'', ''a'', ''a'', '''', ''b'', ''a'', ''a'', '''', ''b''] = [''a'', ''b'']"
    by (simp add: validate_evidence_sources_eq strip_eval)
  have cl: "length v \<le> 10 \<longrightarrow>
      Classification_init ty conf None v =
        Inr \<lparr>classification_type = ty, confidence = conf, reasoning = None,
             evidence_sources = validate_evidence_sources v, cl_metadata = []\<rparr>"
    by (simp add: Classification_init_def field_reasoning_def validate_reasoning_def
        field_evidence_sources_def)
  have ar: "length v \<le> 10 \<and> 0 \<le> time \<and> 0 \<le> cost \<longrightarrow>
      (\<exists>r. create_from_fact_check t c time v cost expires now = Inr r \<and>
           fact_check_sources r = validate_fact_check_sources v)"
    by (simp add: create_from_fact_check_def AnalysisResult_init_def
        field_processing_time_ms_def validate_processing_time_def field_cost_cents_def
        validate_cost_def field_fact_check_sources_def)
  have rej1: "length v > 10 \<longrightarrow>
      Classification_init ty conf reason v \<in>
        {Inl (ValidationError ''reasoning''), Inl (ValidationError ''evidence_sources'')}"
    by (cases "field_reasoning reason")
       (auto simp: Classification_init_def field_evidence_sources_def field_reasoning_def
          split: option.splits if_splits)
  have rej2: "length v > 10 \<longrightarrow> (\<exists>e. create_from_fact_check t c time v cost expires now = Inl e)"
    by (cases "field_processing_time_ms time"; cases "field_cost_cents cost")
       (simp_all add: create_from_fact_check_def AnalysisResult_init_def
          field_fact_check_sources_def)
  show ?thesis
    using same ex cl ar rej1 rej2 hygiene [of v]
    unfolding validate_evidence_sources_eq [symmetric]
    by (intro conjI) blast+
qed

theorem source_list_hygiene_witness:
  "validate_fact_check_sources [''  a '', ''a'', '''', ''b''] = [''a'', ''b''] \<and>
   Classification_init RELIABLE \<lparr>cs_value = 0.9\<rparr> None [''  a '', ''a'', '''', ''b''] =
     Inr \<lparr>classification_type = RELIABLE, confidence = \<lparr>cs_value = 0.9\<rparr>, reasoning = None,
          evidence_sources = [''a'', ''b''], cl_metadata = []\<rparr> \<and>
   (\<exists>e. create_from_fact_check sample_text sample_classification 1 (replicate 11 ''a'') 0 None 0 = Inl e)"
proof -
  have e: "validate_evidence_sources [''  a '', ''a'', '''', ''b''] = [''a'', ''b'']"
    by (simp add: validate_evidence_sources_eq strip_eval)
  show ?thesis
    using source_list_hygiene [where v = "[''  a '', ''a'', '''', ''b'']" and ty = RELIABLE
            and conf = "\<lparr>cs_value = 0.9\<rparr>"]
          source_list_hygiene [where v = "replicate 11 ''a''" and t = sample_text
            and c = sample_classification and time = 1 and cost = 0 and expires = None and now = 0]
    by (simp add: e)
qed

section \<open>Text construction\<close>

lemma field_language_default: "field_language (Some ''pt'') = Inr (Some ''pt'')"
  by (simp add: field_language_def validate_language_code_def matches_language_pattern_def
      is_lower_az_def py_lower_def lower_char_def cp_def)

lemma field_language_invalid:
  assumes "\<not> matches_language_pattern v"
  shows "field_language (Some v) =
           (if length v < 2 \<or> length v > 5 then Inl (ValidationError ''language'')
            else Inr (Some ''pt''))"
  using assms by (simp add: field_language_def validate_language_code_def)

lemma Text_init_language_fails:
  assumes "field_language lang = Inl e"
  shows "\<exists>e'. Text_init oc nc th lang wc cc kws url now = Inl e'"
  using assms by (cases "field_original_content oc") (simp_all add: Text_init_def)

lemma Text_init_language:
  assumes "Text_init oc nc th lang wc cc kws url now = Inr t"
  shows "field_language lang = Inr (language t)"
proof (cases "field_original_content oc")
  case (Inl e)
  with assms show ?thesis by (simp add: Text_init_def)
next
  case oc: (Inr oc')
  show ?thesis
  proof (cases "field_language lang")
    case (Inl e)
    with assms oc show ?thesis by (simp add: Text_init_def)
  next
    case (Inr l)
    with assms oc show ?thesis
      by (cases "field_keywords kws"; cases "field_source_url url")
         (auto simp: Text_init_def split: if_splits)
  qed
qed

lemma Text_init_cong_language:
  assumes "field_language lang = field_language lang'"
  shows "Text_init oc nc th lang wc cc kws url now = Text_init oc nc th lang' wc cc kws url now"
  using assms by (simp add: Text_init_def)

lemma Text_create_unfold:
  "Text_create content url lang kws now =
     (if content = [] \<or> py_strip content = [] then Inl (ValueError ''Content cannot be empty'')
      else and_then (from_text (normalize_content (py_strip content))) (\<lambda>th.
             Text_init (py_strip content) (normalize_content (py_strip content)) th
               (case lang of None \<Rightarrow> Some ''pt'' | Some l \<Rightarrow> if l = [] then Some ''pt'' else Some l)
               (length (py_split (normalize_content (py_strip content)))) (length (py_strip content))
               (case kws of None \<Rightarrow> [] | Some k \<Rightarrow> k) url now))"
  unfolding Text_create_def Let_def by (rule refl)

lemma Text_create_Inr:
  assumes "Text_create content url lang kws now = Inr t"
  shows "\<exists>th. Text_init (py_strip content) (normalize_content (py_strip content)) th
               (case lang of None \<Rightarrow> Some ''pt'' | Some l \<Rightarrow> if l = [] then Some ''pt'' else Some l)
               (length (py_split (normalize_content (py_strip content)))) (length (py_strip content))
               (case kws of None \<Rightarrow> [] | Some k \<Rightarrow> k) url now = Inr t"
proof (cases "content = [] \<or> py_strip content = []")
  case True
  with assms show ?thesis by (simp only: Text_create_unfold if_True sum.distinct)
next
  case False
  show ?thesis
  proof (cases "from_text (normalize_content (py_strip content))")
    case (Inl e)
    with assms False show ?thesis by (simp only: Text_create_unfold if_False and_then.simps sum.distinct)
  next
    case (Inr th)
    with assms False have "Text_init (py_strip content) (normalize_content (py_strip content)) th
               (case lang of None \<Rightarrow> Some ''pt'' | Some l \<Rightarrow> if l = [] then Some ''pt'' else Some l)
               (length (py_split (normalize_content (py_strip content)))) (length (py_strip content))
               (case kws of None \<Rightarrow> [] | Some k \<Rightarrow> k) url now = Inr t"
      by (simp only: Text_create_unfold if_False and_then.simps)
    then show ?thesis by (rule exI)
  qed
qed

lemma Text_create_same_language:
  assumes "field_language (if v = [] then Some ''pt'' else Some v) = field_language (Some ''pt'')"
  shows "Text_create content url (Some v) kws now = Text_create content url None kws now"
proof -
  have h: "\<And>oc nc th wc cc k.
      Text_init oc nc th (if v = [] then Some ''pt'' else Some v) wc cc k url now
        = Text_init oc nc th (Some ''pt'') wc cc k url now"
    using assms by (rule Text_init_cong_language)
  show ?thesis
    by (simp only: Text_create_unfold option.case h)
qed

lemma sample_content_eval:
  "py_strip ''Test Article'' = ''Test Article''"
  "normalize_content ''Test Article'' = ''Test Article''"
  "field_original_content ''Test Article'' = Inr ''Test Article''"
  by (simp_all add: py_strip_def is_space_def cp_def normalize_content_def nfc_def
      is_category_C_def field_original_content_def validate_content_length_def)

text \<open>
  Claim C8, as stated, at three invalid language codes. The field \<^verbatim>\<open>language\<close> is
  declared with \<^verbatim>\<open>min_length=2, max_length=5\<close>, a constraint checked before
  \<^verbatim>\<open>validate_language_code\<close> can fall back, so for \<^verbatim>\<open>english\<close> and for the
  one-character code \<^verbatim>\<open>e\<close> the construction fails. And the pattern's \<^verbatim>\<open>$\<close> also
  matches before a final newline, so \<^verbatim>\<open>pt\<close> followed by a newline, which is no
  ISO 639-1 shape, is accepted and stored as it is instead of falling back.
\<close>

theorem language_length_counterexample:
  "Text_create ''Test Article'' None (Some ''english'') None 0 = Inl (ValidationError ''language'') \<and>
   Text_create ''Test Article'' None (Some ''e'') None 0 = Inl (ValidationError ''language'') \<and>
   \<not> language_shape (''pt'' @ [CHR 0x0A]) \<and>
   and_then (Text_create ''Test Article'' None (Some (''pt'' @ [CHR 0x0A])) None 0) (\<lambda>t. Inr (language t))
     = Inr (Some (''pt'' @ [CHR 0x0A]))"
  by code_simp

text \<open>
  Claim C8, amended. A language code that is no ISO 639-1 shape, is not such a shape
  followed by a newline, and is empty or 2 to 5 characters long is replaced by the
  default: the construction gives what it gives without a language, and every Text built
  without a language has language \<^verbatim>\<open>pt\<close>. An invalid code of one character or of more
  than 5 characters makes the construction fail. (What happens to a shape followed by a
  newline is left out.)
\<close>

theorem invalid_language_falls_back:
  "(\<not> language_shape v \<and> \<not> (v \<noteq> [] \<and> last v = CHR 0x0A \<and> language_shape (butlast v)) \<and>
    (v = [] \<or> (2 \<le> length v \<and> length v \<le> 5)) \<longrightarrow>
      Text_create content url (Some v) kws now = Text_create content url None kws now) \<and>
   (Text_create content url None kws now = Inr t \<longrightarrow> language t = Some ''pt'') \<and>
   (\<not> language_shape v \<and> (length v = 1 \<or> 5 < length v) \<longrightarrow>
      (\<exists>e. Text_create content url (Some v) kws now = Inl e))"
proof (intro conjI impI)
  assume a: "\<not> language_shape v \<and> \<not> (v \<noteq> [] \<and> last v = CHR 0x0A \<and> language_shape (butlast v)) \<and>
    (v = [] \<or> (2 \<le> length v \<and> length v \<le> 5))"
  then have m: "\<not> matches_language_pattern v"
    unfolding matches_language_pattern_def by blast
  have "field_language (if v = [] then Some ''pt'' else Some v) = field_language (Some ''pt'')"
  proof (cases "v = []")
    case True
    then show ?thesis by simp
  next
    case False
    with a m have "field_language (Some v) = Inr (Some ''pt'')"
      by (simp add: field_language_invalid)
    with False show ?thesis by (simp add: field_language_default)
  qed
  then show "Text_create content url (Some v) kws now = Text_create content url None kws now"
    by (rule Text_create_same_language)
next
  assume a: "Text_create content url None kws now = Inr t"
  from Text_create_Inr [OF a] obtain th oc nc wc cc k where
    "Text_init oc nc th (Some ''pt'') wc cc k url now = Inr t"
    by (auto simp only: option.case)
  then have "field_language (Some ''pt'') = Inr (language t)" by (rule Text_init_language)
  then show "language t = Some ''pt''" by (simp add: field_language_default)
next
  assume a: "\<not> language_shape v \<and> (length v = 1 \<or> 5 < length v)"
  then have v: "v \<noteq> []" by auto
  have "length v < 2 \<or> length v > 5" using a by auto
  then have f: "field_language (Some v) = Inl (ValidationError ''language'')"
    by (simp add: field_language_def)
  show "\<exists>e. Text_create content url (Some v) kws now = Inl e"
  proof (cases "content = [] \<or> py_strip content = []")
    case True
    then show ?thesis by (simp only: Text_create_unfold if_True) blast
  next
    case ne: False
    show ?thesis
    proof (cases "from_text (normalize_content (py_strip content))")
      case (Inl e)
      with ne show ?thesis by (simp only: Text_create_unfold if_False and_then.simps) blast
    next
      case (Inr th)
      with ne v show ?thesis
        using Text_init_language_fails [OF f]
        by (simp only: Text_create_unfold if_False and_then.simps option.case)
    qed
  qed
qed

theorem invalid_language_falls_back_witness:
  "Text_create ''Test Article'' None (Some ''EN'') None 0 = Text_create ''Test Article'' None None None 0 \<and>
   Text_create ''Test Article'' None None None 0 = Inr sample_text \<and>
   language sample_text = Some ''pt'' \<and>
   (\<exists>e. Text_create ''Test Article'' None (Some ''english'') None 0 = Inl e)"
proof -
  have m: "\<not> language_shape ''EN''" "\<not> language_shape ''english''"
    "\<not> (''EN'' \<noteq> [] \<and> last ''EN'' = CHR 0x0A \<and> language_shape (butlast ''EN''))"
    by (simp_all add: is_lower_az_def cp_def)
  have c: "Text_create ''Test Article'' None None None 0 = Inr sample_text"
    by code_simp
  show ?thesis
    using invalid_language_falls_back [where v = "''EN''" and content = "''Test Article''"
            and url = None and kws = None and now = 0 and t = sample_text]
          invalid_language_falls_back [where v = "''english''" and content = "''Test Article''"
            and url = None and kws = None and now = 0 and t = sample_text]
    by (simp add: m c is_lower_az_def cp_def)
qed

section \<open>Case and whitespace\<close>



















lemma Text_init_text_hash:
  assumes "Text_init oc nc th lang wc cc kws url now = Inr t"
  shows "text_hash t = th"
proof (cases "field_original_content oc")
  case (Inl e)
  with assms show ?thesis by (simp add: Text_init_def)
next
  case oc: (Inr oc')
  show ?thesis
  proof (cases "field_language lang")
    case (Inl e)
    with assms oc show ?thesis by (simp add: Text_init_def)
  next
    case (Inr l)
    with assms oc show ?thesis
      by (cases "field_keywords kws"; cases "field_source_url url")
         (auto simp: Text_init_def split: if_splits)
  qed
qed

lemma Text_create_hash:
  assumes "Text_create content url lang kws now = Inr t"
  shows "th_value (text_hash t) = Sha256_hex (utf8 (normalize_text (normalize_content (py_strip content))))"
proof -
  from Text_create_Inr [OF assms] obtain th oc nc l wc cc k where
    i: "Text_init oc nc th l wc cc k url now = Inr t" by blast
  have ne: "\<not> (content = [] \<or> py_strip content = [])"
  proof
    assume e: "content = [] \<or> py_strip content = []"
    from assms show False by (simp only: Text_create_unfold e if_True sum.distinct)
  qed
  show ?thesis
  proof (cases "from_text (normalize_content (py_strip content))")
    case (Inl e)
    with assms ne show ?thesis
      by (simp only: Text_create_unfold if_False and_then.simps sum.distinct)
  next
    case (Inr th')
    with assms ne have "Text_init (py_strip content) (normalize_content (py_strip content)) th'
               (case lang of None \<Rightarrow> Some ''pt'' | Some l \<Rightarrow> if l = [] then Some ''pt'' else Some l)
               (length (py_split (normalize_content (py_strip content)))) (length (py_strip content))
               (case kws of None \<Rightarrow> [] | Some k \<Rightarrow> k) url now = Inr t"
      by (simp only: Text_create_unfold if_False and_then.simps)
    then have "text_hash t = th'" by (rule Text_init_text_hash)
    moreover from Inr have "th_value th' =
        Sha256_hex (utf8 (normalize_text (normalize_content (py_strip content))))"
      by (auto simp: from_text_def split: if_splits)
    ultimately show ?thesis by simp
  qed
qed



section \<open>Keyword extraction\<close>




















section \<open>Whitespace runs\<close>












section \<open>Leading and trailing whitespace\<close>







section \<open>The hashing normalization\<close>



























section \<open>The two hashing pipelines\<close>






















lemma Text_create_fingerprint_eq:
  "Text_create t None None None 0 = Inr x \<Longrightarrow>
     Text_create_fingerprint t = Inr (Sha256_hex (utf8 (normalize_text (normalize_content (py_strip t)))))"
  by (simp add: Text_create_fingerprint_def Text_create_hash)




end
